theory Spec2Isabelle
  imports Main "HOL-Library.Word" "HOL-Library.Product_Lexorder"
begin

section \<open>YaCo change hooks (YaLibs/YaToolsIDALib/Hooks.cpp)\<close>

text \<open>
  The C++ struct \<open>Hooks\<close> collects the identifiers of database entities that
  changed since the last export (seven pending containers), appends one annotation per change
  to the repository layer, and on \<open>save()\<close> walks the containers, asks the IDA database
  what became of each entity and drives the model exporter.

  The embedding is state passing: every member function takes the \<open>Hooks\<close> object and
  returns it updated. The calls made on collaborators are recorded as values: the calls of
  \<open>repo_manager_->add_auto_comment\<close> as a list kept in the state, the calls made on the
  incremental model during \<open>save()\<close> as the list of events that \<open>save\<close> returns.
\<close>

subsection \<open>Machine types\<close>

text \<open>
  \<open>ea_t\<close>, \<open>tid_t\<close>, \<open>enum_t\<close> and \<open>uval_t\<close> are the same unsigned
  machine integer in the IDA SDK (32 or 64 bits, fixed by \<open>Ida.h\<close>, which is not part of
  this file). The width is a parameter \<open>'w\<close>; \<open>BADADDR\<close> is \<open>ea_t(-1)\<close>.
\<close>

type_synonym 'w ea_t = "'w word"
type_synonym 'w tid_t = "'w word"
type_synonym 'w enum_t = "'w word"
type_synonym 'w uval_t = "'w word"
type_synonym flags_t = "32 word"

definition BADADDR :: "'w::len ea_t" where
  "BADADDR = - 1"

subsection \<open>The IDA database as an oracle\<close>

text \<open>
  \<open>member_t\<close>: only the field \<open>id\<close> is read (named \<open>member_t_id\<close> here, \<open>id\<close>
  being the identity function of HOL).
\<close>

record 'a member_t =
  member_t_id :: 'a

text \<open>
  The SDK and utility functions that the hooks call, taken as parameters: one record holds the
  answers of the database at the time of the call. A pointer result is an option (\<open>None\<close>
  for \<open>nullptr\<close>); \<open>'s\<close> stands for \<open>struc_t\<close>, which the code only passes on.
  \<open>get_func\<close> is only tested against \<open>nullptr\<close>, so it is modelled by that test.
  \<open>get_member_fullname\<close> gives the string it writes into its out parameter.
\<close>

record ('a, 's) ida =
  get_struc :: "'a \<Rightarrow> 's option"
  get_struc_idx :: "'a \<Rightarrow> 'a"
  get_func_by_frame :: "'a \<Rightarrow> 'a"
  get_member :: "'s option \<Rightarrow> 'a \<Rightarrow> 'a member_t option"
  get_enum_idx :: "'a \<Rightarrow> 'a"
  get_func :: "'a \<Rightarrow> bool"
  get_flags :: "'a \<Rightarrow> flags_t"
  is_code :: "flags_t \<Rightarrow> bool"
  is_member_id :: "'a \<Rightarrow> bool"
  get_member_fullname :: "'a \<Rightarrow> string"
  ea_to_hex :: "'a \<Rightarrow> string"

subsection \<open>The state of \<open>Hooks\<close>\<close>

text \<open>
  \<open>std::set\<close> is a set, \<open>std::map\<close> a partial map; both are iterated in ascending key
  order, which \<open>sorted_list_of_set\<close> gives. \<open>repo_manager\<close> is the sequence of
  \<open>add_auto_comment(id, message)\<close> calls received by the repository so far.
  \<open>hash_provider_\<close> is only handed to \<open>MakeModelIncremental\<close> and is left out.
\<close>

record 'a hooks =
  repo_manager :: "('a \<times> string) list"
  addresses_to_process :: "'a set"
  structures_to_process :: "'a set"
  structmember_to_process :: "'a \<rightharpoonup> ('a \<times> 'a)"
  enums_to_process :: "'a set"
  enummember_to_process :: "'a \<rightharpoonup> 'a"
  comments_to_process :: "'a set"
  segments_to_process :: "('a \<times> 'a) set"

type_synonym 'w Hooks = "'w ea_t hooks"

text \<open>The constructor: every container is default-constructed, that is, empty.\<close>

definition MakeHooks :: "('w::len ea_t \<times> string) list \<Rightarrow> 'w Hooks" where
  "MakeHooks repo =
     \<lparr> repo_manager = repo,
       addresses_to_process = {},
       structures_to_process = {},
       structmember_to_process = Map.empty,
       enums_to_process = {},
       enummember_to_process = Map.empty,
       comments_to_process = {},
       segments_to_process = {} \<rparr>"

definition add_auto_comment :: "'w::len ea_t \<Rightarrow> string \<Rightarrow> 'w Hooks \<Rightarrow> 'w Hooks" where
  "add_auto_comment ea message h = h\<lparr>repo_manager := repo_manager h @ [(ea, message)]\<rparr>"

subsection \<open>Event intake\<close>

definition add_address_to_process :: "'w::len ea_t \<Rightarrow> string \<Rightarrow> 'w Hooks \<Rightarrow> 'w Hooks" where
  "add_address_to_process ea message h =
     add_auto_comment ea message
       (h\<lparr>addresses_to_process := insert ea (addresses_to_process h)\<rparr>)"

definition add_strucmember_to_process ::
  "'w::len ea_t \<Rightarrow> 'w tid_t \<Rightarrow> 'w ea_t \<Rightarrow> string \<Rightarrow> 'w Hooks \<Rightarrow> 'w Hooks" where
  "add_strucmember_to_process struct_id member_id member_offset message h =
     add_auto_comment struct_id message
       (h\<lparr>structmember_to_process :=
            (structmember_to_process h)(struct_id \<mapsto> (member_id, member_offset))\<rparr>)"

definition rename_message :: "string \<Rightarrow> string \<Rightarrow> string \<Rightarrow> string" where
  "rename_message new_name type old_name =
     (let message = type;
          message = (if type \<noteq> [] then message @ [CHR '' ''] else message);
          message = message @ ''renamed '';
          message = (if old_name \<noteq> [] then (message @ ''from '') @ old_name else message);
          message = message @ ''to '';
          message = message @ new_name
      in message)"

definition rename ::
  "'w::len ea_t \<Rightarrow> string \<Rightarrow> string \<Rightarrow> string \<Rightarrow> 'w Hooks \<Rightarrow> 'w Hooks" where
  "rename ea new_name type old_name h =
     add_address_to_process ea (rename_message new_name type old_name) h"

definition change_comment :: "'w::len ea_t \<Rightarrow> 'w Hooks \<Rightarrow> 'w Hooks" where
  "change_comment ea h = h\<lparr>comments_to_process := insert ea (comments_to_process h)\<rparr>"

definition undefine :: "'w::len ea_t \<Rightarrow> 'w Hooks \<Rightarrow> 'w Hooks" where
  "undefine ea h = add_address_to_process ea ''Undefne'' h"

definition delete_function :: "'w::len ea_t \<Rightarrow> 'w Hooks \<Rightarrow> 'w Hooks" where
  "delete_function ea h = add_address_to_process ea ''Delete function'' h"

definition make_code :: "'w::len ea_t \<Rightarrow> 'w Hooks \<Rightarrow> 'w Hooks" where
  "make_code ea h = add_address_to_process ea ''Create code'' h"

definition make_data :: "'w::len ea_t \<Rightarrow> 'w Hooks \<Rightarrow> 'w Hooks" where
  "make_data ea h = add_address_to_process ea ''Create data'' h"

definition add_function :: "'w::len ea_t \<Rightarrow> 'w Hooks \<Rightarrow> 'w Hooks" where
  "add_function ea h = add_address_to_process ea ''Create function'' h"

definition update_structure :: "'w::len ea_t \<Rightarrow> 'w Hooks \<Rightarrow> 'w Hooks" where
  "update_structure struct_id h =
     add_auto_comment struct_id ''Updated''
       (h\<lparr>structures_to_process := insert struct_id (structures_to_process h)\<rparr>)"

definition update_structure_member ::
  "('w::len ea_t, 's) ida \<Rightarrow> 'w tid_t \<Rightarrow> 'w tid_t \<Rightarrow> 'w ea_t \<Rightarrow> 'w Hooks \<Rightarrow> 'w Hooks" where
  "update_structure_member db struct_id member_id member_offset h =
     (let message = ''Member updated at offset '';
          message = message @ ea_to_hex db member_offset;
          message = message @ '' : '';
          member_id_fullname = get_member_fullname db member_id;
          message = message @ member_id_fullname
      in add_strucmember_to_process struct_id member_id member_offset message h)"

definition delete_structure_member ::
  "'w::len tid_t \<Rightarrow> 'w tid_t \<Rightarrow> 'w ea_t \<Rightarrow> 'w Hooks \<Rightarrow> 'w Hooks" where
  "delete_structure_member struct_id member_id offset h =
     add_strucmember_to_process struct_id member_id offset ''Member deleted'' h"

definition update_enum :: "'w::len enum_t \<Rightarrow> 'w Hooks \<Rightarrow> 'w Hooks" where
  "update_enum enum_id h =
     add_auto_comment enum_id ''Updated''
       (h\<lparr>enums_to_process := insert enum_id (enums_to_process h)\<rparr>)"

text \<open>
  \<open>change_operand_type\<close> also returns the warnings it logs (\<open>IDA_LOG_WARNING\<close>): none on
  the two early returns, one line otherwise.
\<close>

definition change_operand_type ::
  "('w::len ea_t, 's) ida \<Rightarrow> 'w ea_t \<Rightarrow> 'w Hooks \<Rightarrow> 'w Hooks \<times> string list" where
  "change_operand_type db ea h =
     (if get_func db ea \<or> is_code db (get_flags db ea) then
        (add_auto_comment ea ''Operand type change''
           (h\<lparr>addresses_to_process := insert ea (addresses_to_process h)\<rparr>), [])
      else if is_member_id db ea then (h, [])
      else (h, [''Operand type changed at '' @ ea_to_hex db ea
                 @ '', code out of a function: not implemented'']))"

definition add_segment :: "'w::len ea_t \<Rightarrow> 'w ea_t \<Rightarrow> 'w Hooks \<Rightarrow> 'w Hooks" where
  "add_segment start_ea end_ea h =
     h\<lparr>segments_to_process := insert (start_ea, end_ea) (segments_to_process h)\<rparr>"

definition change_type_information :: "'w::len ea_t \<Rightarrow> 'w Hooks \<Rightarrow> 'w Hooks" where
  "change_type_information ea h = add_address_to_process ea ''Type information changed'' h"

subsection \<open>Flush\<close>

definition flush :: "'w::len Hooks \<Rightarrow> 'w Hooks" where
  "flush h =
     h\<lparr> addresses_to_process := {},
        structures_to_process := {},
        structmember_to_process := Map.empty,
        enums_to_process := {},
        enummember_to_process := Map.empty,
        comments_to_process := {},
        segments_to_process := {} \<rparr>"

subsection \<open>Save\<close>

text \<open>
  The calls that \<open>save()\<close> makes on the visitor (\<open>visit_start\<close>, \<open>visit_end\<close>) and on
  the incremental model (all others), in the order they are made. The first argument of
  \<open>accept_struct\<close>, \<open>accept_struct_member\<close> and \<open>delete_struct_member\<close> is the
  owning function, \<open>BADADDR\<close> for none.
\<close>

datatype 'a event =
    visit_start
  | visit_end
  | accept_ea 'a
  | accept_segment 'a
  | accept_struct 'a 'a
  | delete_struct 'a
  | accept_function 'a
  | accept_struct_member 'a 'a
  | delete_struct_member 'a 'a 'a
  | accept_enum 'a
  | delete_enum 'a

text \<open>The body of the first loop of \<open>save_structures\<close>, for one pending structure.\<close>

definition save_structure :: "('w::len ea_t, 's) ida \<Rightarrow> 'w tid_t \<Rightarrow> 'w ea_t event list" where
  "save_structure db struct_id =
     (let struct_idx = get_struc_idx db struct_id in
      if struct_idx \<noteq> BADADDR then [accept_struct BADADDR struct_id]
      else
        let func_ea = get_func_by_frame db struct_id in
        if func_ea \<noteq> BADADDR then [accept_struct func_ea struct_id, accept_ea func_ea]
        else [delete_struct struct_id])"

text \<open>
  The second loop of \<open>save_structures\<close>, for one entry
  \<open>struct_id \<mapsto> (member_id, member_offset)\<close> of the member map, in two parts.
  \<open>save_member\<close> is the part after the structure was found or its function was noted
  (from the comment \<open>structure or stackframe modified\<close> on): it looks the member up at the
  recorded offset. The events emitted before a \<open>continue\<close> are the result of that branch.
\<close>

definition save_member ::
  "('w::len ea_t, 's) ida \<Rightarrow> 'w ea_t \<Rightarrow> 's option \<Rightarrow> 'w tid_t \<Rightarrow> 'w ea_t \<Rightarrow> 'w ea_t event list" where
  "save_member db stackframe_func_addr ida_struct struct_id member_offset =
     (case get_member db ida_struct member_offset of
        None \<Rightarrow> [delete_struct_member stackframe_func_addr struct_id member_offset]
      | Some ida_member \<Rightarrow>
          if member_t_id ida_member = - 1 then
            [delete_struct_member stackframe_func_addr struct_id member_offset]
          else if member_offset > 0 \<and>
                  (case get_member db ida_struct (member_offset - 1) of
                     None \<Rightarrow> False
                   | Some ida_prev_member \<Rightarrow>
                       member_t_id ida_prev_member = member_t_id ida_member) then
            [delete_struct_member stackframe_func_addr struct_id member_offset]
          else
            [accept_struct_member stackframe_func_addr (member_t_id ida_member)])"

definition save_structmember ::
  "('w::len ea_t, 's) ida \<Rightarrow> 'w tid_t \<Rightarrow> 'w tid_t \<times> 'w ea_t \<Rightarrow> 'w ea_t event list" where
  "save_structmember db struct_id info =
     (let member_offset = snd info;
          ida_struct = get_struc db struct_id;
          struct_idx = get_struc_idx db struct_id
      in
      if ida_struct = None \<or> struct_idx = BADADDR then
        let func_ea = get_func_by_frame db struct_id in
        if func_ea = BADADDR then [delete_struct_member BADADDR struct_id member_offset]
        else
          accept_function func_ea
          # save_member db func_ea ida_struct struct_id member_offset
      else save_member db BADADDR ida_struct struct_id member_offset)"

definition save_structures :: "('w::len ea_t, 's) ida \<Rightarrow> 'w Hooks \<Rightarrow> 'w ea_t event list" where
  "save_structures db h =
     concat (map (save_structure db) (sorted_list_of_set (structures_to_process h)))
     @ concat (map (\<lambda>struct_id.
                      case structmember_to_process h struct_id of
                        None \<Rightarrow> []
                      | Some info \<Rightarrow> save_structmember db struct_id info)
                   (sorted_list_of_set (dom (structmember_to_process h))))"

text \<open>The body of the loop of \<open>save_enums\<close>, for one pending enum.\<close>

definition save_enum :: "('w::len ea_t, 's) ida \<Rightarrow> 'w enum_t \<Rightarrow> 'w ea_t event" where
  "save_enum db enum_id =
     (let enum_idx = get_enum_idx db enum_id in
      if enum_idx = BADADDR then delete_enum enum_id else accept_enum enum_id)"

definition save_enums :: "('w::len ea_t, 's) ida \<Rightarrow> 'w Hooks \<Rightarrow> 'w ea_t event list" where
  "save_enums db h = map (save_enum db) (sorted_list_of_set (enums_to_process h))"

text \<open>
  \<open>save()\<close> talks to two collaborators: the repository, through the
  \<open>add_auto_comment\<close> calls that \<open>add_address_to_process\<close> makes in the comment loop,
  and the exporter (the visitor and the incremental model). A \<open>call\<close> is one call on
  either of them.
\<close>

datatype 'a call =
    repo_call 'a string
  | model_call "'a event"

text \<open>The exporter calls of a sequence of calls, in order.\<close>

fun model_calls :: "'a call list \<Rightarrow> 'a event list" where
  "model_calls [] = []"
| "model_calls (repo_call ea message # cs) = model_calls cs"
| "model_calls (model_call e # cs) = e # model_calls cs"

text \<open>The repository calls of a sequence of calls, in order.\<close>

fun repo_calls :: "'a call list \<Rightarrow> ('a \<times> string) list" where
  "repo_calls [] = []"
| "repo_calls (repo_call ea message # cs) = (ea, message) # repo_calls cs"
| "repo_calls (model_call e # cs) = repo_calls cs"

text \<open>
  \<open>save_calls\<close> is \<open>save()\<close> statement by statement: it returns the updated object and
  every call made on a collaborator, in the order the calls are made. After
  \<open>visit_start\<close> the comment loop runs, each iteration inserting one address and sending
  one annotation; the structure pass, the enum pass, the address loop and the segment loop
  follow, on the object as the comment loop left it. The comment loop iterates
  \<open>comments_to_process_\<close> while inserting into \<open>addresses_to_process_\<close>, a different
  container. Writing the model to the cache folder (\<open>MakeXmlExporter\<close>) and the timing log
  are outside the model.
\<close>

definition save_calls ::
  "('w::len ea_t, 's) ida \<Rightarrow> 'w Hooks \<Rightarrow> 'w Hooks \<times> 'w ea_t call list" where
  "save_calls db h =
     (let calls = [model_call visit_start];
          comments = sorted_list_of_set (comments_to_process h);
          h1 = fold (\<lambda>ea. add_address_to_process ea ''Changed comment'') comments h;
          calls = calls @ map (\<lambda>ea. repo_call ea ''Changed comment'') comments;
          calls = calls @ map model_call (save_structures db h1);
          calls = calls @ map model_call (save_enums db h1);
          calls = calls @ map (\<lambda>ea. model_call (accept_ea ea))
                            (sorted_list_of_set (addresses_to_process h1));
          calls = calls @ map (\<lambda>segment_ea. model_call (accept_segment (fst segment_ea)))
                            (sorted_list_of_set (segments_to_process h1));
          calls = calls @ [model_call visit_end]
      in (h1, calls))"

text \<open>\<open>save\<close> is \<open>save()\<close> seen from the exporter: the updated object and the exporter calls.\<close>

definition save :: "('w::len ea_t, 's) ida \<Rightarrow> 'w Hooks \<Rightarrow> 'w Hooks \<times> 'w ea_t event list" where
  "save db h = (fst (save_calls db h), model_calls (snd (save_calls db h)))"

subsection \<open>A database for evaluation\<close>

text \<open>
  A concrete 64-bit database that knows no structure, enum, function or code: every lookup
  fails. The examples below change single answers of it.
\<close>

definition blank_db :: "(64 ea_t, unit) ida" where
  "blank_db =
     \<lparr> get_struc = (\<lambda>_. None),
       get_struc_idx = (\<lambda>_. BADADDR),
       get_func_by_frame = (\<lambda>_. BADADDR),
       get_member = (\<lambda>_ _. None),
       get_enum_idx = (\<lambda>_. BADADDR),
       get_func = (\<lambda>_. False),
       get_flags = (\<lambda>_. 0),
       is_code = (\<lambda>_. False),
       is_member_id = (\<lambda>_. False),
       get_member_fullname = (\<lambda>_. []),
       ea_to_hex = (\<lambda>_. []) \<rparr>"

text \<open>
  A database in which every structure exists (index 0) and has two members: \<open>0x44\<close> at
  offset 4 and \<open>0x99\<close> at offset 8; no other offset holds a member.
\<close>

definition two_member_db :: "(64 ea_t, unit) ida" where
  "two_member_db =
     blank_db
       \<lparr> get_struc := (\<lambda>_. Some ()),
         get_struc_idx := (\<lambda>_. 0),
         get_member := (\<lambda>_ member_offset.
            if member_offset = 4 then Some \<lparr>member_t_id = 0x44\<rparr>
            else if member_offset = 8 then Some \<lparr>member_t_id = 0x99\<rparr>
            else None) \<rparr>"

subsection \<open>Observations used in the statements\<close>

text \<open>
  The seven pending containers of an object: the object with the record of repository calls
  erased.
\<close>

definition pending :: "'w::len Hooks \<Rightarrow> 'w Hooks" where
  "pending h = h\<lparr>repo_manager := []\<rparr>"

text \<open>
  The structure that an exporter call names by its structure identifier, if any
  (\<open>accept_struct_member\<close> names the member, not the structure).
\<close>

fun event_struct :: "'a event \<Rightarrow> 'a option" where
  "event_struct (accept_struct func_ea struct_id) = Some struct_id"
| "event_struct (delete_struct struct_id) = Some struct_id"
| "event_struct (delete_struct_member func_ea struct_id member_offset) = Some struct_id"
| "event_struct e = None"

section \<open>Properties\<close>

subsection \<open>Helper facts about the intake functions\<close>

lemma add_auto_comment_fields:
  "repo_manager (add_auto_comment ea m h) = repo_manager h @ [(ea, m)]"
  "addresses_to_process (add_auto_comment ea m h) = addresses_to_process h"
  "structures_to_process (add_auto_comment ea m h) = structures_to_process h"
  "structmember_to_process (add_auto_comment ea m h) = structmember_to_process h"
  "enums_to_process (add_auto_comment ea m h) = enums_to_process h"
  "enummember_to_process (add_auto_comment ea m h) = enummember_to_process h"
  "comments_to_process (add_auto_comment ea m h) = comments_to_process h"
  "segments_to_process (add_auto_comment ea m h) = segments_to_process h"
  by (simp_all add: add_auto_comment_def)

lemma add_address_to_process_fields:
  "repo_manager (add_address_to_process ea m h) = repo_manager h @ [(ea, m)]"
  "addresses_to_process (add_address_to_process ea m h) = insert ea (addresses_to_process h)"
  "structures_to_process (add_address_to_process ea m h) = structures_to_process h"
  "structmember_to_process (add_address_to_process ea m h) = structmember_to_process h"
  "enums_to_process (add_address_to_process ea m h) = enums_to_process h"
  "enummember_to_process (add_address_to_process ea m h) = enummember_to_process h"
  "comments_to_process (add_address_to_process ea m h) = comments_to_process h"
  "segments_to_process (add_address_to_process ea m h) = segments_to_process h"
  by (simp_all add: add_address_to_process_def add_auto_comment_fields)

lemma add_strucmember_to_process_fields:
  "repo_manager (add_strucmember_to_process s i off m h) = repo_manager h @ [(s, m)]"
  "addresses_to_process (add_strucmember_to_process s i off m h) = addresses_to_process h"
  "structures_to_process (add_strucmember_to_process s i off m h) = structures_to_process h"
  "structmember_to_process (add_strucmember_to_process s i off m h)
     = (structmember_to_process h)(s \<mapsto> (i, off))"
  "enums_to_process (add_strucmember_to_process s i off m h) = enums_to_process h"
  "enummember_to_process (add_strucmember_to_process s i off m h) = enummember_to_process h"
  "comments_to_process (add_strucmember_to_process s i off m h) = comments_to_process h"
  "segments_to_process (add_strucmember_to_process s i off m h) = segments_to_process h"
  by (simp_all add: add_strucmember_to_process_def add_auto_comment_fields)

lemma MakeHooks_fields:
  "repo_manager (MakeHooks repo) = repo"
  "addresses_to_process (MakeHooks repo) = {}"
  "structures_to_process (MakeHooks repo) = {}"
  "structmember_to_process (MakeHooks repo) = Map.empty"
  "enums_to_process (MakeHooks repo) = {}"
  "enummember_to_process (MakeHooks repo) = Map.empty"
  "comments_to_process (MakeHooks repo) = {}"
  "segments_to_process (MakeHooks repo) = {}"
  by (simp_all add: MakeHooks_def)

lemma model_calls_append: "model_calls (cs @ ds) = model_calls cs @ model_calls ds"
  by (induction cs rule: model_calls.induct) simp_all

lemma model_calls_map_model_call: "model_calls (map model_call es) = es"
  by (induction es) simp_all

lemma model_calls_map_model_call_of: "model_calls (map (\<lambda>x. model_call (f x)) xs) = map f xs"
  by (induction xs) simp_all

lemma model_calls_map_repo_call: "model_calls (map (\<lambda>ea. repo_call ea (m ea)) xs) = []"
  by (induction xs) simp_all

text \<open>The comment loop of \<open>save()\<close>: what folding a list of addresses does to each field.\<close>

lemma fold_add_address_fields:
  "repo_manager (fold (\<lambda>ea. add_address_to_process ea m) xs h)
     = repo_manager h @ map (\<lambda>ea. (ea, m)) xs"
  "addresses_to_process (fold (\<lambda>ea. add_address_to_process ea m) xs h)
     = addresses_to_process h \<union> set xs"
  "structures_to_process (fold (\<lambda>ea. add_address_to_process ea m) xs h)
     = structures_to_process h"
  "structmember_to_process (fold (\<lambda>ea. add_address_to_process ea m) xs h)
     = structmember_to_process h"
  "enums_to_process (fold (\<lambda>ea. add_address_to_process ea m) xs h) = enums_to_process h"
  "enummember_to_process (fold (\<lambda>ea. add_address_to_process ea m) xs h)
     = enummember_to_process h"
  "comments_to_process (fold (\<lambda>ea. add_address_to_process ea m) xs h)
     = comments_to_process h"
  "segments_to_process (fold (\<lambda>ea. add_address_to_process ea m) xs h)
     = segments_to_process h"
  by (induction xs arbitrary: h; simp add: add_address_to_process_fields)+

lemma save_fields:
  "repo_manager (fst (save db h))
     = repo_manager h
       @ map (\<lambda>ea. (ea, ''Changed comment'')) (sorted_list_of_set (comments_to_process h))"
  "addresses_to_process (fst (save db h)) = addresses_to_process h \<union> comments_to_process h"
  "structures_to_process (fst (save db h)) = structures_to_process h"
  "structmember_to_process (fst (save db h)) = structmember_to_process h"
  "enums_to_process (fst (save db h)) = enums_to_process h"
  "enummember_to_process (fst (save db h)) = enummember_to_process h"
  "comments_to_process (fst (save db h)) = comments_to_process h"
  "segments_to_process (fst (save db h)) = segments_to_process h"
  by (simp_all add: save_def save_calls_def Let_def fold_add_address_fields)

subsection \<open>Fixed annotations\<close>

text \<open>
  The five intake functions besides \<open>undefine\<close> that register an address with a fixed
  annotation send the text the specification names.
\<close>

lemma fixed_annotations:
  "repo_manager (delete_function ea h) = repo_manager h @ [(ea, ''Delete function'')]"
  "repo_manager (make_code ea h) = repo_manager h @ [(ea, ''Create code'')]"
  "repo_manager (make_data ea h) = repo_manager h @ [(ea, ''Create data'')]"
  "repo_manager (add_function ea h) = repo_manager h @ [(ea, ''Create function'')]"
  "repo_manager (change_type_information ea h)
     = repo_manager h @ [(ea, ''Type information changed'')]"
  by (simp_all add: delete_function_def make_code_def make_data_def add_function_def
        change_type_information_def add_address_to_process_fields)

lemma fixed_annotations_addresses:
  "addresses_to_process (delete_function ea h) = insert ea (addresses_to_process h)"
  "addresses_to_process (make_code ea h) = insert ea (addresses_to_process h)"
  "addresses_to_process (make_data ea h) = insert ea (addresses_to_process h)"
  "addresses_to_process (add_function ea h) = insert ea (addresses_to_process h)"
  "addresses_to_process (change_type_information ea h) = insert ea (addresses_to_process h)"
  by (simp_all add: delete_function_def make_code_def make_data_def add_function_def
        change_type_information_def add_address_to_process_fields)

text \<open>
  C2. \<open>undefine(ea)\<close> inserts \<open>ea\<close> into the pending address set, but the annotation it
  sends to the repository is the misspelt \<open>Undefne\<close>: the text \<open>Undefine\<close> that the
  specification names is not what is sent. (The other five functions send the specified
  texts, see \<open>fixed_annotations\<close>.)
\<close>

theorem undefine_sends_Undefne:
  "addresses_to_process (undefine ea h) = insert ea (addresses_to_process h)
   \<and> repo_manager (undefine ea h) = repo_manager h @ [(ea, ''Undefne'')]
   \<and> last (repo_manager (undefine ea h)) \<noteq> (ea, ''Undefine'')"
  by (simp add: undefine_def add_address_to_process_fields)

subsection \<open>Rename\<close>

lemma rename_message_no_old_name:
  "rename_message new_name type [] =
     (if type = [] then ''renamed to '' @ new_name
      else type @ '' renamed to '' @ new_name)"
  by (simp add: rename_message_def)

lemma rename_message_old_name:
  "old_name \<noteq> [] \<Longrightarrow>
   rename_message new_name type old_name =
     (if type = [] then ''renamed from '' @ old_name @ ''to '' @ new_name
      else type @ '' renamed from '' @ old_name @ ''to '' @ new_name)"
  by (simp add: rename_message_def)

text \<open>
  C3. With a previous name the annotation of \<open>rename\<close> has no space between the old name
  and the word \<open>to\<close>: renaming the function \<open>old\<close> at \<open>0x1000\<close> to \<open>new\<close> sends
  \<open>function renamed from oldto new\<close>, not \<open>function renamed from old to new\<close>.
\<close>

theorem rename_glues_old_name_to_to:
  "repo_manager (rename (0x1000 :: 64 ea_t) ''new'' ''function'' ''old'' (MakeHooks []))
     = [(0x1000, ''function renamed from oldto new'')]
   \<and> ''function renamed from oldto new'' \<noteq> ''function renamed from old to new''"
  by (simp add: rename_def rename_message_def add_address_to_process_fields MakeHooks_fields)

subsection \<open>Lifecycle: construction, flush, and what save leaves behind\<close>

text \<open>
  C1, as stated, fails: \<open>save()\<close> does not clear anything. After \<open>undefine(0x1000)\<close> on
  a fresh object and a \<open>save()\<close>, the address is still pending.
\<close>

theorem save_does_not_clear_counterexample:
  "addresses_to_process (fst (save blank_db (undefine 0x1000 (MakeHooks [])))) \<noteq> {}"
  by (simp add: save_fields undefine_def add_address_to_process_fields)

text \<open>
  C1, amended. Clearing is the separate operation \<open>flush()\<close>: after any call of it, in
  particular one that follows a \<open>save()\<close>, all seven pending containers are empty; and a
  freshly constructed object has all seven containers empty.
\<close>

theorem flush_clears_all_containers:
  "addresses_to_process (flush h) = {}
   \<and> structures_to_process (flush h) = {}
   \<and> structmember_to_process (flush h) = Map.empty
   \<and> enums_to_process (flush h) = {}
   \<and> enummember_to_process (flush h) = Map.empty
   \<and> comments_to_process (flush h) = {}
   \<and> segments_to_process (flush h) = {}
   \<and> addresses_to_process (MakeHooks repo :: 'w::len Hooks) = {}
   \<and> structures_to_process (MakeHooks repo :: 'w Hooks) = {}
   \<and> structmember_to_process (MakeHooks repo :: 'w Hooks) = Map.empty
   \<and> enums_to_process (MakeHooks repo :: 'w Hooks) = {}
   \<and> enummember_to_process (MakeHooks repo :: 'w Hooks) = Map.empty
   \<and> comments_to_process (MakeHooks repo :: 'w Hooks) = {}
   \<and> segments_to_process (MakeHooks repo :: 'w Hooks) = {}"
  by (simp add: flush_def MakeHooks_def)

subsection \<open>The frame of save\<close>

text \<open>
  C10. Among the seven pending containers \<open>save()\<close> changes only the pending address set,
  into which it inserts every pending comment address; the other six containers are the same
  after \<open>save()\<close> as before.
\<close>

theorem save_modifies_only_addresses:
  "addresses_to_process (fst (save db h)) = addresses_to_process h \<union> comments_to_process h
   \<and> structures_to_process (fst (save db h)) = structures_to_process h
   \<and> structmember_to_process (fst (save db h)) = structmember_to_process h
   \<and> enums_to_process (fst (save db h)) = enums_to_process h
   \<and> enummember_to_process (fst (save db h)) = enummember_to_process h
   \<and> comments_to_process (fst (save db h)) = comments_to_process h
   \<and> segments_to_process (fst (save db h)) = segments_to_process h"
  by (simp add: save_fields)

subsection \<open>The calls made by save\<close>

lemma save_structures_cong:
  "structures_to_process h = structures_to_process h' \<Longrightarrow>
   structmember_to_process h = structmember_to_process h' \<Longrightarrow>
   save_structures db h = save_structures db h'"
  by (simp add: save_structures_def)

lemma save_events:
  "snd (save db h) =
     visit_start # save_structures db h @ save_enums db h
     @ map accept_ea (sorted_list_of_set (addresses_to_process h \<union> comments_to_process h))
     @ map (\<lambda>segment_ea. accept_segment (fst segment_ea))
           (sorted_list_of_set (segments_to_process h))
     @ [visit_end]"
proof -
  let ?h1 = "fold (\<lambda>ea. add_address_to_process ea ''Changed comment'')
                  (sorted_list_of_set (comments_to_process h)) h"
  have "save_structures db ?h1 = save_structures db h"
    by (rule save_structures_cong) (simp_all add: fold_add_address_fields)
  moreover have "save_enums db ?h1 = save_enums db h"
    by (simp add: save_enums_def fold_add_address_fields)
  ultimately show ?thesis
    by (simp add: save_def save_calls_def Let_def fold_add_address_fields
        model_calls_append model_calls_map_model_call model_calls_map_model_call_of
        model_calls_map_repo_call)
qed

lemma filter_concat_map_empty:
  "(\<And>x e. x \<in> set xs \<Longrightarrow> e \<in> set (f x) \<Longrightarrow> \<not> P e) \<Longrightarrow> filter P (concat (map f xs)) = []"
  by (induction xs) (auto simp: filter_empty_conv)

lemma filter_map_single:
  "distinct xs \<Longrightarrow> (\<And>x. P (f x) \<longleftrightarrow> x = a) \<Longrightarrow>
   filter P (map f xs) = (if a \<in> set xs then [f a] else [])"
  by (induction xs) auto

lemma save_structure_events:
  "e \<in> set (save_structure db s) \<Longrightarrow>
   (\<exists>f. e = accept_struct f s) \<or> (\<exists>f. e = accept_ea f) \<or> e = delete_struct s"
  by (auto simp: save_structure_def Let_def split: if_splits)

lemma save_member_events:
  "e \<in> set (save_member db f st s off) \<Longrightarrow>
   e = delete_struct_member f s off \<or> (\<exists>i. e = accept_struct_member f i)"
  by (auto simp: save_member_def split: option.splits if_splits)

lemma save_structmember_events:
  "e \<in> set (save_structmember db s info) \<Longrightarrow>
   (\<exists>f. e = delete_struct_member f s (snd info)) \<or> (\<exists>f i. e = accept_struct_member f i)
   \<or> (\<exists>f. e = accept_function f)"
  by (auto simp: save_structmember_def Let_def split: if_splits dest: save_member_events)

lemma save_structures_events:
  "e \<in> set (save_structures db h) \<Longrightarrow>
   (\<exists>f s. e = accept_struct f s) \<or> (\<exists>f. e = accept_ea f) \<or> (\<exists>s. e = delete_struct s)
   \<or> (\<exists>f s off. e = delete_struct_member f s off) \<or> (\<exists>f i. e = accept_struct_member f i)
   \<or> (\<exists>f. e = accept_function f)"
  unfolding save_structures_def
  by (auto split: option.splits dest!: save_structure_events save_structmember_events)

lemma concat_map_split:
  "x \<in> set xs \<Longrightarrow> \<exists>pre post. concat (map f xs) = pre @ f x @ post"
proof -
  assume "x \<in> set xs"
  then obtain ys zs where "xs = ys @ x # zs"
    by (auto dest: split_list)
  then have "concat (map f xs) = concat (map f ys) @ f x @ concat (map f zs)"
    by simp
  then show ?thesis by blast
qed

lemma save_structure_in_trace:
  assumes "struct_id \<in> structures_to_process h"
  shows "\<exists>pre post. snd (save db h) = pre @ save_structure db struct_id @ post"
proof -
  from assms have "struct_id \<in> set (sorted_list_of_set (structures_to_process h))"
    by simp
  from concat_map_split [OF this, of "save_structure db"]
  obtain pre post where
    "concat (map (save_structure db) (sorted_list_of_set (structures_to_process h)))
       = pre @ save_structure db struct_id @ post"
    by blast
  then have "snd (save db h) = (visit_start # pre) @ save_structure db struct_id
       @ (post @ concat (map (\<lambda>struct_id.
                      case structmember_to_process h struct_id of
                        None \<Rightarrow> []
                      | Some info \<Rightarrow> save_structmember db struct_id info)
                   (sorted_list_of_set (dom (structmember_to_process h))))
          @ save_enums db h
          @ map accept_ea (sorted_list_of_set (addresses_to_process h \<union> comments_to_process h))
          @ map (\<lambda>segment_ea. accept_segment (fst segment_ea))
                (sorted_list_of_set (segments_to_process h))
          @ [visit_end])"
    by (simp add: save_events save_structures_def)
  then show ?thesis by blast
qed

lemma save_structmember_in_trace:
  assumes "structmember_to_process h struct_id = Some info"
  shows "\<exists>pre post. snd (save db h) = pre @ save_structmember db struct_id info @ post"
proof -
  let ?g = "\<lambda>struct_id. case structmember_to_process h struct_id of
                        None \<Rightarrow> []
                      | Some info \<Rightarrow> save_structmember db struct_id info"
  from assms have "struct_id \<in> set (sorted_list_of_set (dom (structmember_to_process h)))"
    by auto
  from concat_map_split [OF this, of ?g]
  obtain pre post where
    "concat (map ?g (sorted_list_of_set (dom (structmember_to_process h))))
       = pre @ ?g struct_id @ post"
    by blast
  with assms have "snd (save db h) =
       (visit_start # concat (map (save_structure db)
           (sorted_list_of_set (structures_to_process h))) @ pre)
       @ save_structmember db struct_id info
       @ (post @ save_enums db h
          @ map accept_ea (sorted_list_of_set (addresses_to_process h \<union> comments_to_process h))
          @ map (\<lambda>segment_ea. accept_segment (fst segment_ea))
                (sorted_list_of_set (segments_to_process h))
          @ [visit_end])"
    by (simp add: save_events save_structures_def)
  then show ?thesis by blast
qed

lemma filter_concat_map_single:
  "distinct xs \<Longrightarrow> (\<And>x. x \<noteq> a \<Longrightarrow> filter P (f x) = []) \<Longrightarrow>
   filter P (concat (map f xs)) = (if a \<in> set xs then filter P (f a) else [])"
proof (induction xs)
  case Nil
  then show ?case by simp
next
  case (Cons x xs)
  show ?case
  proof (cases "x = a")
    case True
    with Cons show ?thesis by simp
  next
    case False
    with Cons show ?thesis by simp
  qed
qed

lemma length_filter_concat_map:
  "(\<And>x. length (filter P (f x)) = (if Q x then 1 else 0)) \<Longrightarrow>
   length (filter P (concat (map f xs))) = length (filter Q xs)"
  by (induction xs) auto

text \<open>How often an address is exported by a whole \<open>save()\<close>.\<close>

lemma count_accept_ea:
  "length (filter (\<lambda>e. e = accept_ea ea) (snd (save db h)))
   = (if ea \<in> addresses_to_process h \<union> comments_to_process h then 1 else 0)
     + card {struct_id \<in> structures_to_process h.
               get_struc_idx db struct_id = BADADDR \<and> get_func_by_frame db struct_id = ea
               \<and> ea \<noteq> BADADDR}"
proof -
  let ?P = "\<lambda>e. e = accept_ea ea"
  let ?Q = "\<lambda>struct_id. get_struc_idx db struct_id = BADADDR
               \<and> get_func_by_frame db struct_id = ea \<and> ea \<noteq> BADADDR"
  let ?g = "\<lambda>struct_id. case structmember_to_process h struct_id of
                        None \<Rightarrow> []
                      | Some info \<Rightarrow> save_structmember db struct_id info"
  have "length (filter ?P (concat (map (save_structure db)
           (sorted_list_of_set (structures_to_process h)))))
        = length (filter ?Q (sorted_list_of_set (structures_to_process h)))"
    by (rule length_filter_concat_map) (auto simp: save_structure_def Let_def)
  also have "\<dots> = card {struct_id \<in> structures_to_process h. ?Q struct_id}"
    by (simp add: distinct_length_filter Int_def conj_commute)
  finally have 1: "length (filter ?P (concat (map (save_structure db)
           (sorted_list_of_set (structures_to_process h)))))
        = card {struct_id \<in> structures_to_process h. ?Q struct_id}" .
  have 2: "filter ?P (concat (map ?g (sorted_list_of_set (dom (structmember_to_process h))))) = []"
    by (rule filter_concat_map_empty)
      (auto split: option.splits dest: save_structmember_events)
  have 3: "filter ?P (save_enums db h) = []"
    by (auto simp: filter_empty_conv save_enums_def save_enum_def Let_def)
  have 4: "filter ?P (map accept_ea (sorted_list_of_set A)) = (if ea \<in> A then [accept_ea ea] else [])"
    for A :: "'a word set"
    by (subst filter_map_single [where a = ea]) auto
  have 5: "filter ?P (map (\<lambda>segment_ea. accept_segment (fst segment_ea)) ys) = []"
    for ys :: "('a word \<times> 'a word) list"
    by (auto simp: filter_empty_conv)
  show ?thesis
    by (simp add: save_events save_structures_def 1 2 3 4 5 del: Un_iff)
qed

subsection \<open>Enums\<close>

text \<open>
  C6. For every pending enum identifier, the calls of \<open>save()\<close> that concern it
  (\<open>accept_enum\<close> or \<open>delete_enum\<close> with that identifier) are exactly one call:
  \<open>delete_enum\<close> when \<open>get_enum_idx\<close> answers \<open>BADADDR\<close>, \<open>accept_enum\<close>
  otherwise. So never both.
\<close>

theorem save_enum_exactly_one:
  assumes "enum_id \<in> enums_to_process h"
  shows "filter (\<lambda>e. e = accept_enum enum_id \<or> e = delete_enum enum_id) (snd (save db h))
         = [if get_enum_idx db enum_id = BADADDR then delete_enum enum_id
            else accept_enum enum_id]"
proof -
  let ?P = "\<lambda>e. e = accept_enum enum_id \<or> e = delete_enum enum_id"
  have 1: "filter ?P (save_structures db h) = []"
    by (auto simp: filter_empty_conv dest: save_structures_events)
  have 2: "filter ?P (save_enums db h) = [save_enum db enum_id]"
    unfolding save_enums_def using assms
    by (subst filter_map_single [where a = enum_id]) (auto simp: save_enum_def Let_def)
  have 3: "filter ?P (map accept_ea xs) = []" for xs
    by (auto simp: filter_empty_conv)
  have 4: "filter ?P (map (\<lambda>segment_ea. accept_segment (fst segment_ea)) ys) = []"
    for ys :: "('a word \<times> 'a word) list"
    by (auto simp: filter_empty_conv)
  show ?thesis
    by (simp only: save_events filter.simps filter_append 1 2 3 4) (simp add: save_enum_def)
qed

theorem save_enum_exactly_one_witness:
  "(0x30 :: 64 enum_t) \<in> enums_to_process (update_enum 0x30 (MakeHooks []))
   \<and> filter (\<lambda>e. e = accept_enum 0x30 \<or> e = delete_enum 0x30)
        (snd (save blank_db (update_enum 0x30 (MakeHooks []))))
      = [delete_enum 0x30]
   \<and> filter (\<lambda>e. e = accept_enum 0x30 \<or> e = delete_enum 0x30)
        (snd (save (blank_db\<lparr>get_enum_idx := (\<lambda>_. 7)\<rparr>) (update_enum 0x30 (MakeHooks []))))
      = [accept_enum 0x30]"
  using save_enum_exactly_one [of "0x30" "update_enum 0x30 (MakeHooks [])" blank_db]
    save_enum_exactly_one [of "0x30" "update_enum 0x30 (MakeHooks [])"
      "blank_db\<lparr>get_enum_idx := (\<lambda>_. 7)\<rparr>"]
  by (simp add: update_enum_def add_auto_comment_fields blank_db_def BADADDR_def)

subsection \<open>Deleted structures\<close>

lemma event_struct_save_structure:
  "x \<noteq> s \<Longrightarrow> filter (\<lambda>e. event_struct e = Some s) (save_structure db x) = []"
  by (auto simp: save_structure_def Let_def)

lemma event_struct_save_structmember:
  "x \<noteq> s \<Longrightarrow> filter (\<lambda>e. event_struct e = Some s) (save_structmember db x info) = []"
  by (auto simp: filter_empty_conv dest!: save_structmember_events)

text \<open>
  C4, as stated, fails in its second half: a pending structure with no valid index and no
  owning function gets its \<open>delete_struct\<close>, but when the same identifier also has a
  pending member entry, \<open>save()\<close> emits a \<open>delete_struct_member\<close> for it as well.
  Here structure \<open>0x20\<close> was registered by \<open>update_structure\<close> and by
  \<open>delete_structure_member\<close> and is gone from the database.
\<close>

theorem save_deleted_structure_counterexample:
  "(0x20 :: 64 tid_t)
     \<in> structures_to_process
         (delete_structure_member 0x20 0x21 4 (update_structure 0x20 (MakeHooks [])))
   \<and> get_struc_idx blank_db 0x20 = BADADDR
   \<and> get_func_by_frame blank_db 0x20 = BADADDR
   \<and> snd (save blank_db
            (delete_structure_member 0x20 0x21 4 (update_structure 0x20 (MakeHooks []))))
      = [visit_start, delete_struct 0x20, delete_struct_member BADADDR 0x20 4, visit_end]
   \<and> filter (\<lambda>e. event_struct e = Some 0x20)
        (snd (save blank_db
                (delete_structure_member 0x20 0x21 4 (update_structure 0x20 (MakeHooks [])))))
      \<noteq> [delete_struct 0x20]"
  by (simp add: save_events save_structures_def save_structure_def save_structmember_def
      save_enums_def delete_structure_member_def update_structure_def
      add_strucmember_to_process_fields add_auto_comment_fields MakeHooks_fields blank_db_def)

text \<open>
  C4, amended. For a pending structure identifier with no valid index:
  \<^item> if \<open>get_func_by_frame\<close> finds an owning function, \<open>save()\<close> emits
    \<open>accept_struct\<close> with that function, immediately followed by \<open>accept_ea\<close> of the
    function, and never \<open>delete_struct\<close> of the identifier;
  \<^item> if there is no owning function, the structure pass emits for it one \<open>delete_struct\<close>
    and nothing else, and the calls of the whole \<open>save()\<close> that name the structure are
    exactly that \<open>delete_struct\<close>, followed, only when the identifier also has a pending
    member entry, by one \<open>delete_struct_member\<close> without function context at the recorded
    offset.
\<close>

theorem save_deleted_structure:
  assumes "struct_id \<in> structures_to_process h"
    and "get_struc_idx db struct_id = BADADDR"
  shows "(get_func_by_frame db struct_id \<noteq> BADADDR \<longrightarrow>
            (\<exists>pre post. snd (save db h) =
                pre @ [accept_struct (get_func_by_frame db struct_id) struct_id,
                       accept_ea (get_func_by_frame db struct_id)] @ post)
            \<and> delete_struct struct_id \<notin> set (snd (save db h)))
       \<and> (get_func_by_frame db struct_id = BADADDR \<longrightarrow>
            save_structure db struct_id = [delete_struct struct_id]
            \<and> filter (\<lambda>e. event_struct e = Some struct_id) (snd (save db h))
            = delete_struct struct_id
              # (case structmember_to_process h struct_id of
                   None \<Rightarrow> []
                 | Some info \<Rightarrow> [delete_struct_member BADADDR struct_id (snd info)]))"
proof (intro conjI impI)
  assume f: "get_func_by_frame db struct_id \<noteq> BADADDR"
  with assms(2) have "save_structure db struct_id =
      [accept_struct (get_func_by_frame db struct_id) struct_id,
       accept_ea (get_func_by_frame db struct_id)]"
    by (simp add: save_structure_def Let_def)
  with save_structure_in_trace [OF assms(1), of db]
  show "\<exists>pre post. snd (save db h) =
                pre @ [accept_struct (get_func_by_frame db struct_id) struct_id,
                       accept_ea (get_func_by_frame db struct_id)] @ post"
    by simp
  have "delete_struct struct_id \<notin> set (save_structure db x)" for x
    using f assms(2) by (auto simp: save_structure_def Let_def)
  moreover have "delete_struct struct_id \<notin> set (save_structmember db x info)" for x info
    by (auto dest: save_structmember_events)
  ultimately have "delete_struct struct_id \<notin> set (save_structures db h)"
    by (auto simp: save_structures_def split: option.splits)
  then show "delete_struct struct_id \<notin> set (snd (save db h))"
    by (auto simp: save_events save_enums_def save_enum_def Let_def)
next
  assume f: "get_func_by_frame db struct_id = BADADDR"
  with assms(2) show "save_structure db struct_id = [delete_struct struct_id]"
    by (simp add: save_structure_def)
  let ?P = "\<lambda>e. event_struct e = Some struct_id"
  let ?g = "\<lambda>struct_id. case structmember_to_process h struct_id of
                        None \<Rightarrow> []
                      | Some info \<Rightarrow> save_structmember db struct_id info"
  have "filter ?P (concat (map (save_structure db)
           (sorted_list_of_set (structures_to_process h))))
        = (if struct_id \<in> set (sorted_list_of_set (structures_to_process h))
           then filter ?P (save_structure db struct_id) else [])"
    by (rule filter_concat_map_single) (simp_all add: event_struct_save_structure)
  with assms f have 1: "filter ?P (concat (map (save_structure db)
           (sorted_list_of_set (structures_to_process h)))) = [delete_struct struct_id]"
    by (simp add: save_structure_def)
  have "filter ?P (concat (map ?g (sorted_list_of_set (dom (structmember_to_process h)))))
        = (if struct_id \<in> set (sorted_list_of_set (dom (structmember_to_process h)))
           then filter ?P (?g struct_id) else [])"
    by (rule filter_concat_map_single)
      (simp_all add: event_struct_save_structmember split: option.splits)
  with assms(2) f have 2:
    "filter ?P (concat (map ?g (sorted_list_of_set (dom (structmember_to_process h)))))
     = (case structmember_to_process h struct_id of
          None \<Rightarrow> []
        | Some info \<Rightarrow> [delete_struct_member BADADDR struct_id (snd info)])"
    by (auto simp: save_structmember_def split: option.splits)
  have 3: "filter ?P (save_enums db h) = []"
    by (auto simp: filter_empty_conv save_enums_def save_enum_def Let_def)
  have 4: "filter ?P (map accept_ea xs) = []" for xs
    by (auto simp: filter_empty_conv)
  have 5: "filter ?P (map (\<lambda>segment_ea. accept_segment (fst segment_ea)) ys) = []"
    for ys :: "('a word \<times> 'a word) list"
    by (auto simp: filter_empty_conv)
  show "filter ?P (snd (save db h))
        = delete_struct struct_id
          # (case structmember_to_process h struct_id of
               None \<Rightarrow> []
             | Some info \<Rightarrow> [delete_struct_member BADADDR struct_id (snd info)])"
    by (simp add: save_events save_structures_def 1 2 3 4 5)
qed

theorem save_deleted_structure_witness:
  "(0x20 :: 64 tid_t) \<in> structures_to_process (update_structure 0x20 (MakeHooks []))
   \<and> get_struc_idx (blank_db\<lparr>get_func_by_frame := (\<lambda>_. 0x10)\<rparr>) 0x20 = BADADDR
   \<and> (\<exists>pre post.
         snd (save (blank_db\<lparr>get_func_by_frame := (\<lambda>_. 0x10)\<rparr>)
                (update_structure 0x20 (MakeHooks [])))
         = pre @ [accept_struct 0x10 0x20, accept_ea 0x10] @ post)
   \<and> delete_struct 0x20
       \<notin> set (snd (save (blank_db\<lparr>get_func_by_frame := (\<lambda>_. 0x10)\<rparr>)
                     (update_structure 0x20 (MakeHooks []))))
   \<and> filter (\<lambda>e. event_struct e = Some 0x20)
        (snd (save blank_db (update_structure 0x20 (MakeHooks []))))
      = [delete_struct 0x20]"
  using save_deleted_structure [of "0x20" "update_structure 0x20 (MakeHooks [])"
      "blank_db\<lparr>get_func_by_frame := (\<lambda>_. 0x10)\<rparr>"]
    save_deleted_structure [of "0x20" "update_structure 0x20 (MakeHooks [])" blank_db]
  by (simp add: update_structure_def add_auto_comment_fields MakeHooks_fields blank_db_def
      BADADDR_def)

subsection \<open>Structure members\<close>

text \<open>
  C5. For a pending member entry with recorded offset \<open>O > 0\<close>, when the database has a
  member at \<open>O\<close> and the member at \<open>O - 1\<close> has the same identifier, the calls made for
  the entry are \<open>delete_struct_member\<close> for \<open>(struct, O)\<close>, with the owning function as
  context when the structure is gone and is a frame (then after the \<open>accept_function\<close> of
  that function), with \<open>BADADDR\<close> otherwise; these calls are part of what \<open>save()\<close>
  emits, and there is no \<open>accept_struct_member\<close> among them.
\<close>

theorem member_overlap_deleted:
  assumes "structmember_to_process h struct_id = Some (member_id, member_offset)"
    and "0 < member_offset"
    and "get_member db (get_struc db struct_id) member_offset = Some ida_member"
    and "get_member db (get_struc db struct_id) (member_offset - 1) = Some ida_prev_member"
    and "member_t_id ida_prev_member = member_t_id ida_member"
  shows "save_structmember db struct_id (member_id, member_offset)
         = (if get_struc db struct_id = None \<or> get_struc_idx db struct_id = BADADDR then
              if get_func_by_frame db struct_id = BADADDR then
                [delete_struct_member BADADDR struct_id member_offset]
              else
                [accept_function (get_func_by_frame db struct_id),
                 delete_struct_member (get_func_by_frame db struct_id) struct_id member_offset]
            else [delete_struct_member BADADDR struct_id member_offset])
       \<and> (\<exists>pre post. snd (save db h)
              = pre @ save_structmember db struct_id (member_id, member_offset) @ post)
       \<and> (\<forall>func_ea i. accept_struct_member func_ea i
              \<notin> set (save_structmember db struct_id (member_id, member_offset)))"
proof -
  have m: "save_member db f (get_struc db struct_id) struct_id member_offset
           = [delete_struct_member f struct_id member_offset]" for f
    using assms(2-5) by (simp add: save_member_def)
  then have 1: "save_structmember db struct_id (member_id, member_offset)
         = (if get_struc db struct_id = None \<or> get_struc_idx db struct_id = BADADDR then
              if get_func_by_frame db struct_id = BADADDR then
                [delete_struct_member BADADDR struct_id member_offset]
              else
                [accept_function (get_func_by_frame db struct_id),
                 delete_struct_member (get_func_by_frame db struct_id) struct_id member_offset]
            else [delete_struct_member BADADDR struct_id member_offset])"
    unfolding save_structmember_def Let_def snd_conv m by simp
  have 2: "\<exists>pre post. snd (save db h)
              = pre @ save_structmember db struct_id (member_id, member_offset) @ post"
    by (rule save_structmember_in_trace [OF assms(1)])
  have 3: "\<forall>func_ea i. accept_struct_member func_ea i
              \<notin> set (save_structmember db struct_id (member_id, member_offset))"
    by (simp add: 1)
  from 1 2 3 show ?thesis by blast
qed

theorem member_overlap_deleted_witness:
  "structmember_to_process
     (delete_structure_member 0x20 0x22 4 (MakeHooks [])) (0x20 :: 64 tid_t) = Some (0x22, 4)
   \<and> (0 :: 64 ea_t) < 4
   \<and> get_member
        (blank_db\<lparr>get_struc := (\<lambda>_. Some ()), get_struc_idx := (\<lambda>_. 0),
                  get_member := (\<lambda>_ _. Some \<lparr>member_t_id = 0x21\<rparr>)\<rparr>)
        (Some ()) 4 = Some \<lparr>member_t_id = 0x21\<rparr>
   \<and> save_structmember
        (blank_db\<lparr>get_struc := (\<lambda>_. Some ()), get_struc_idx := (\<lambda>_. 0),
                  get_member := (\<lambda>_ _. Some \<lparr>member_t_id = 0x21\<rparr>)\<rparr>)
        0x20 (0x22, 4)
      = [delete_struct_member BADADDR 0x20 4]
   \<and> snd (save
            (blank_db\<lparr>get_struc := (\<lambda>_. Some ()), get_struc_idx := (\<lambda>_. 0),
                      get_member := (\<lambda>_ _. Some \<lparr>member_t_id = 0x21\<rparr>)\<rparr>)
            (delete_structure_member 0x20 0x22 4 (MakeHooks [])))
      = [visit_start, delete_struct_member BADADDR 0x20 4, visit_end]"
  using member_overlap_deleted [of "delete_structure_member 0x20 0x22 4 (MakeHooks [])"
      "0x20" "0x22" 4
      "blank_db\<lparr>get_struc := (\<lambda>_. Some ()), get_struc_idx := (\<lambda>_. 0),
                get_member := (\<lambda>_ _. Some \<lparr>member_t_id = 0x21\<rparr>)\<rparr>"
      "\<lparr>member_t_id = 0x21\<rparr>" "\<lparr>member_t_id = 0x21\<rparr>"]
  by (simp add: save_events save_structures_def save_enums_def delete_structure_member_def
      add_strucmember_to_process_fields MakeHooks_fields blank_db_def BADADDR_def)

subsection \<open>Pending containers and repetition\<close>

lemma pending_fields:
  "repo_manager (pending h) = []"
  "addresses_to_process (pending h) = addresses_to_process h"
  "structures_to_process (pending h) = structures_to_process h"
  "structmember_to_process (pending h) = structmember_to_process h"
  "enums_to_process (pending h) = enums_to_process h"
  "enummember_to_process (pending h) = enummember_to_process h"
  "comments_to_process (pending h) = comments_to_process h"
  "segments_to_process (pending h) = segments_to_process h"
  by (simp_all add: pending_def)

lemma pending_eqI:
  "addresses_to_process h = addresses_to_process h' \<Longrightarrow>
   structures_to_process h = structures_to_process h' \<Longrightarrow>
   structmember_to_process h = structmember_to_process h' \<Longrightarrow>
   enums_to_process h = enums_to_process h' \<Longrightarrow>
   enummember_to_process h = enummember_to_process h' \<Longrightarrow>
   comments_to_process h = comments_to_process h' \<Longrightarrow>
   segments_to_process h = segments_to_process h' \<Longrightarrow>
   pending h = pending h'"
  by (simp add: pending_def)

lemma save_events_pending:
  assumes "pending h = pending h'"
  shows "snd (save db h) = snd (save db h')"
proof -
  have "addresses_to_process h = addresses_to_process h'"
    "structures_to_process h = structures_to_process h'"
    "structmember_to_process h = structmember_to_process h'"
    "enums_to_process h = enums_to_process h'"
    "comments_to_process h = comments_to_process h'"
    "segments_to_process h = segments_to_process h'"
    using assms pending_fields [of h] pending_fields [of h'] by simp_all
  then show ?thesis
    by (simp add: save_events save_structures_def save_enums_def)
qed

lemma funpow_pending:
  "(\<And>h. pending (g (g h)) = pending (g h)) \<Longrightarrow> 0 < N \<Longrightarrow>
   pending ((g ^^ N) h) = pending (g h)"
proof (induction N arbitrary: h)
  case 0
  then show ?case by simp
next
  case (Suc N)
  show ?case
  proof (cases "N = 0")
    case True
    then show ?thesis by simp
  next
    case False
    with Suc have "pending ((g ^^ N) (g h)) = pending (g (g h))"
      by simp
    with Suc.prems(1) show ?thesis
      by (simp add: funpow_swap1)
  qed
qed

lemma address_pass_once:
  "filter (\<lambda>e. e = accept_ea ea) (map accept_ea (sorted_list_of_set A))
   = (if ea \<in> A then [accept_ea ea] else [])" for A :: "'w::len ea_t set"
  by (subst filter_map_single [where a = ea]) auto

subsection \<open>Comments\<close>

lemma repo_calls_append: "repo_calls (cs @ ds) = repo_calls cs @ repo_calls ds"
  by (induction cs rule: repo_calls.induct) simp_all

lemma repo_calls_map_model_call_of: "repo_calls (map (\<lambda>x. model_call (f x)) xs) = []"
  by (induction xs) simp_all

lemma repo_calls_map_model_call: "repo_calls (map model_call es) = []"
  by (induction es) simp_all

lemma repo_calls_map_repo_call:
  "repo_calls (map (\<lambda>ea. repo_call ea m) xs) = map (\<lambda>ea. (ea, m)) xs"
  by (induction xs) simp_all

lemma save_calls_log:
  "snd (save_calls db h)
   = model_call visit_start
     # map (\<lambda>ea. repo_call ea ''Changed comment'')
           (sorted_list_of_set (comments_to_process h))
     @ map model_call
         (save_structures db (fst (save db h)) @ save_enums db (fst (save db h))
          @ map accept_ea (sorted_list_of_set (addresses_to_process (fst (save db h))))
          @ map (\<lambda>segment_ea. accept_segment (fst segment_ea))
                (sorted_list_of_set (segments_to_process (fst (save db h))))
          @ [visit_end])"
  by (simp add: save_def save_calls_def Let_def)

lemma takeWhile_comment_loop:
  assumes "ea \<in> set xs"
  shows "model_calls (takeWhile (\<lambda>c. c \<noteq> repo_call ea m)
           (model_call e # map (\<lambda>ea. repo_call ea m) xs @ cs)) = [e]"
proof -
  have "takeWhile (\<lambda>c. c \<noteq> repo_call ea m) (map (\<lambda>ea. repo_call ea m) xs @ cs)
        = takeWhile (\<lambda>c. c \<noteq> repo_call ea m) (map (\<lambda>ea. repo_call ea m) xs)"
    using assms by (intro takeWhile_append1 [where x = "repo_call ea m"]) auto
  also have "\<dots> = map (\<lambda>ea. repo_call ea m) (takeWhile (\<lambda>x. x \<noteq> ea) xs)"
    by (simp add: takeWhile_map comp_def)
  finally show ?thesis
    by (simp add: model_calls_map_repo_call)
qed

text \<open>
  C7, as stated, fails in one place: the address of a changed comment can be exported twice.
  Here only a comment was registered at \<open>0x10\<close>; structure \<open>0x20\<close> is also pending, has
  no valid index and is the frame of the function at \<open>0x10\<close>. The structure pass exports
  \<open>0x10\<close> as the owner of the frame, then the address pass exports it again.
\<close>

theorem comment_folding_counterexample:
  "(0x10 :: 64 ea_t)
     \<in> comments_to_process (update_structure 0x20 (change_comment 0x10 (MakeHooks [])))
   \<and> 0x10 \<notin> addresses_to_process (update_structure 0x20 (change_comment 0x10 (MakeHooks [])))
   \<and> snd (save (blank_db\<lparr>get_func_by_frame := (\<lambda>_. 0x10)\<rparr>)
            (update_structure 0x20 (change_comment 0x10 (MakeHooks []))))
      = [visit_start, accept_struct 0x10 0x20, accept_ea 0x10, accept_ea 0x10, visit_end]
   \<and> length (filter (\<lambda>e. e = accept_ea 0x10)
        (snd (save (blank_db\<lparr>get_func_by_frame := (\<lambda>_. 0x10)\<rparr>)
                (update_structure 0x20 (change_comment 0x10 (MakeHooks [])))))) = 2"
  by (simp add: save_events save_structures_def save_structure_def save_enums_def
      update_structure_def change_comment_def add_auto_comment_fields MakeHooks_fields
      blank_db_def BADADDR_def)

text \<open>
  C7, amended. For an address with a pending comment change, \<open>save()\<close>
  \<^item> inserts it into the pending address set and sends exactly one annotation for it,
    \<open>Changed comment\<close>;
  \<^item> does so before the structure and enum passes: in the sequence of all calls that
    \<open>save()\<close> makes, the annotations of the comment loop come right after
    \<open>visit_start\<close> and before every call of the structure, enum, address and segment
    passes, so that the only exporter call made before the annotation of the address is
    \<open>visit_start\<close>; these passes run on the object with the comment addresses inserted;
    the annotations in that sequence are what the repository has received when \<open>save()\<close>
    returns, and its exporter calls are the calls of \<open>save\<close>;
  \<^item> exports it exactly once in the address pass; over the whole \<open>save()\<close> the number of
    \<open>accept_ea\<close> calls for it is one plus the number of pending structures that have no
    valid index and whose owning function is that address;
  \<^item> makes no call of its own for the comment: the exporter calls are those for the same
    object with the comment addresses registered as plain address changes.
\<close>

theorem comment_folding:
  assumes "ea \<in> comments_to_process h"
  shows "ea \<in> addresses_to_process (fst (save db h))
    \<and> filter (\<lambda>c. fst c = ea)
         (drop (length (repo_manager h)) (repo_manager (fst (save db h))))
       = [(ea, ''Changed comment'')]
    \<and> snd (save db h)
       = visit_start
         # save_structures db (fst (save db h)) @ save_enums db (fst (save db h))
         @ map accept_ea (sorted_list_of_set (addresses_to_process (fst (save db h))))
         @ map (\<lambda>segment_ea. accept_segment (fst segment_ea))
               (sorted_list_of_set (segments_to_process (fst (save db h))))
         @ [visit_end]
    \<and> filter (\<lambda>e. e = accept_ea ea)
         (map accept_ea (sorted_list_of_set (addresses_to_process (fst (save db h)))))
       = [accept_ea ea]
    \<and> length (filter (\<lambda>e. e = accept_ea ea) (snd (save db h)))
       = 1 + card {struct_id \<in> structures_to_process h.
                     get_struc_idx db struct_id = BADADDR
                     \<and> get_func_by_frame db struct_id = ea \<and> ea \<noteq> BADADDR}
    \<and> snd (save db h)
       = snd (save db (h\<lparr>addresses_to_process :=
                             addresses_to_process h \<union> comments_to_process h,
                          comments_to_process := {}\<rparr>))
    \<and> snd (save_calls db h)
       = model_call visit_start
         # map (\<lambda>ea. repo_call ea ''Changed comment'')
               (sorted_list_of_set (comments_to_process h))
         @ map model_call
             (save_structures db (fst (save db h)) @ save_enums db (fst (save db h))
              @ map accept_ea (sorted_list_of_set (addresses_to_process (fst (save db h))))
              @ map (\<lambda>segment_ea. accept_segment (fst segment_ea))
                    (sorted_list_of_set (segments_to_process (fst (save db h))))
              @ [visit_end])
    \<and> repo_call ea ''Changed comment'' \<in> set (snd (save_calls db h))
    \<and> model_calls (takeWhile (\<lambda>c. c \<noteq> repo_call ea ''Changed comment'')
                     (snd (save_calls db h)))
       = [visit_start]
    \<and> repo_manager (fst (save db h)) = repo_manager h @ repo_calls (snd (save_calls db h))
    \<and> snd (save db h) = model_calls (snd (save_calls db h))"
proof -
  have 1: "ea \<in> addresses_to_process (fst (save db h))"
    using assms by (simp add: save_fields)
  have "filter (\<lambda>c. fst c = ea)
          (map (\<lambda>ea. (ea, ''Changed comment'')) (sorted_list_of_set (comments_to_process h)))
        = [(ea, ''Changed comment'')]"
    using assms by (subst filter_map_single [where a = ea]) auto
  then have 2: "filter (\<lambda>c. fst c = ea)
         (drop (length (repo_manager h)) (repo_manager (fst (save db h))))
       = [(ea, ''Changed comment'')]"
    by (simp add: save_fields)
  have "save_structures db (fst (save db h)) = save_structures db h"
    by (rule save_structures_cong) (simp_all add: save_fields)
  then have 3: "snd (save db h)
       = visit_start
         # save_structures db (fst (save db h)) @ save_enums db (fst (save db h))
         @ map accept_ea (sorted_list_of_set (addresses_to_process (fst (save db h))))
         @ map (\<lambda>segment_ea. accept_segment (fst segment_ea))
               (sorted_list_of_set (segments_to_process (fst (save db h))))
         @ [visit_end]"
    by (simp add: save_events save_fields save_enums_def)
  have 4: "filter (\<lambda>e. e = accept_ea ea)
         (map accept_ea (sorted_list_of_set (addresses_to_process (fst (save db h)))))
       = [accept_ea ea]"
    using 1 by (simp add: address_pass_once)
  have 5: "length (filter (\<lambda>e. e = accept_ea ea) (snd (save db h)))
       = 1 + card {struct_id \<in> structures_to_process h.
                     get_struc_idx db struct_id = BADADDR
                     \<and> get_func_by_frame db struct_id = ea \<and> ea \<noteq> BADADDR}"
    using assms by (simp add: count_accept_ea)
  have 6: "snd (save db h)
       = snd (save db (h\<lparr>addresses_to_process :=
                             addresses_to_process h \<union> comments_to_process h,
                          comments_to_process := {}\<rparr>))"
    by (simp add: save_events save_structures_def save_enums_def)
  note 7 = save_calls_log [of db h]
  have 8: "repo_call ea ''Changed comment'' \<in> set (snd (save_calls db h))"
    using assms by (simp add: 7)
  have 9: "model_calls (takeWhile (\<lambda>c. c \<noteq> repo_call ea ''Changed comment'')
                     (snd (save_calls db h))) = [visit_start]"
    unfolding 7 using assms by (intro takeWhile_comment_loop) simp
  have 10: "repo_manager (fst (save db h))
            = repo_manager h @ repo_calls (snd (save_calls db h))"
    unfolding 7
    by (simp add: save_fields repo_calls_append repo_calls_map_repo_call
        repo_calls_map_model_call del: map_append)
  have 11: "snd (save db h) = model_calls (snd (save_calls db h))"
    by (simp add: save_def)
  from 1 2 3 4 5 6 7 8 9 10 11 show ?thesis by blast
qed

theorem comment_folding_witness:
  "(0x10 :: 64 ea_t)
     \<in> comments_to_process
         (update_enum 0x30 (update_structure 0x20 (change_comment 0x10 (MakeHooks []))))
   \<and> snd (save_calls blank_db
            (update_enum 0x30 (update_structure 0x20 (change_comment 0x10 (MakeHooks [])))))
      = [model_call visit_start, repo_call 0x10 ''Changed comment'',
         model_call (delete_struct 0x20), model_call (delete_enum 0x30),
         model_call (accept_ea 0x10), model_call visit_end]
   \<and> repo_manager (fst (save blank_db
        (update_enum 0x30 (update_structure 0x20 (change_comment 0x10 (MakeHooks []))))))
      = [(0x20, ''Updated''), (0x30, ''Updated''), (0x10, ''Changed comment'')]
   \<and> snd (save blank_db
            (update_enum 0x30 (update_structure 0x20 (change_comment 0x10 (MakeHooks [])))))
      = [visit_start, delete_struct 0x20, delete_enum 0x30, accept_ea 0x10, visit_end]
   \<and> length (filter (\<lambda>e. e = accept_ea 0x10)
        (snd (save blank_db
           (update_enum 0x30 (update_structure 0x20 (change_comment 0x10 (MakeHooks [])))))))
      = 1"
  using comment_folding [of "0x10"
      "update_enum 0x30 (update_structure 0x20 (change_comment 0x10 (MakeHooks [])))" blank_db]
  by (simp add: save_calls_log change_comment_def update_structure_def update_enum_def
      add_auto_comment_fields save_fields save_events save_structures_def save_structure_def
      save_enums_def save_enum_def MakeHooks_fields blank_db_def)

subsection \<open>Repeated registration\<close>

lemma add_address_to_process_idem:
  "pending (add_address_to_process ea m (add_address_to_process ea m' h))
   = pending (add_address_to_process ea m' h)"
  by (rule pending_eqI) (simp_all add: add_address_to_process_fields)

lemma add_strucmember_to_process_overwrite:
  "pending (add_strucmember_to_process s i off m (add_strucmember_to_process s i' off' m' h))
   = pending (add_strucmember_to_process s i off m h)"
  by (rule pending_eqI) (simp_all add: add_strucmember_to_process_fields)

lemma intake_idem:
  "pending (rename ea new_name type old_name (rename ea new_name type old_name h))
   = pending (rename ea new_name type old_name h)"
  "pending (change_comment ea (change_comment ea h)) = pending (change_comment ea h)"
  "pending (undefine ea (undefine ea h)) = pending (undefine ea h)"
  "pending (delete_function ea (delete_function ea h)) = pending (delete_function ea h)"
  "pending (make_code ea (make_code ea h)) = pending (make_code ea h)"
  "pending (make_data ea (make_data ea h)) = pending (make_data ea h)"
  "pending (add_function ea (add_function ea h)) = pending (add_function ea h)"
  "pending (update_structure struct_id (update_structure struct_id h))
   = pending (update_structure struct_id h)"
  "pending (update_structure_member db struct_id member_id member_offset
              (update_structure_member db struct_id member_id member_offset h))
   = pending (update_structure_member db struct_id member_id member_offset h)"
  "pending (delete_structure_member struct_id member_id member_offset
              (delete_structure_member struct_id member_id member_offset h))
   = pending (delete_structure_member struct_id member_id member_offset h)"
  "pending (update_enum enum_id (update_enum enum_id h)) = pending (update_enum enum_id h)"
  "pending (fst (change_operand_type db ea (fst (change_operand_type db ea h))))
   = pending (fst (change_operand_type db ea h))"
  "pending (add_segment start_ea end_ea (add_segment start_ea end_ea h))
   = pending (add_segment start_ea end_ea h)"
  "pending (change_type_information ea (change_type_information ea h))
   = pending (change_type_information ea h)"
  by (simp_all add: rename_def undefine_def delete_function_def make_code_def make_data_def
      add_function_def change_type_information_def add_address_to_process_idem
      update_structure_member_def delete_structure_member_def
      add_strucmember_to_process_overwrite)
    (simp_all add: pending_def change_comment_def update_structure_def update_enum_def
      change_operand_type_def add_segment_def add_auto_comment_def)

lemma funpow_addresses:
  fixes f :: "'w::len Hooks \<Rightarrow> 'w Hooks"
  assumes step: "\<And>h. addresses_to_process (f h) = insert ea (addresses_to_process h)"
    and "0 < N"
  shows "addresses_to_process ((f ^^ N) h) = insert ea (addresses_to_process h)"
  using \<open>0 < N\<close>
proof (induction N)
  case 0
  then show ?case by simp
next
  case (Suc N)
  show ?case
  proof (cases "N = 0")
    case True
    then show ?thesis by (simp add: step)
  next
    case False
    with Suc have "addresses_to_process ((f ^^ N) h) = insert ea (addresses_to_process h)"
      by simp
    then show ?thesis by (simp add: step)
  qed
qed

text \<open>
  C8, as stated, fails in one place: after \<open>make_code(0x40)\<close> was registered three times,
  the flush exports \<open>0x40\<close> twice when structure \<open>0x50\<close> is pending too, has no valid
  index and is the frame of the function at \<open>0x40\<close>: once as the owner of the frame, once
  in the address pass.
\<close>

theorem intake_dedup_counterexample:
  "snd (save (blank_db\<lparr>get_func_by_frame := (\<lambda>_. 0x40)\<rparr>)
         ((make_code 0x40 ^^ 3) (update_structure 0x50 (MakeHooks []))))
   = [visit_start, accept_struct 0x40 0x50, accept_ea 0x40, accept_ea 0x40, visit_end]
   \<and> length (filter (\<lambda>e. e = accept_ea 0x40)
        (snd (save (blank_db\<lparr>get_func_by_frame := (\<lambda>_. 0x40)\<rparr>)
                ((make_code 0x40 ^^ 3) (update_structure 0x50 (MakeHooks [])))))) = 2"
  by (simp add: numeral_3_eq_3 save_events save_structures_def save_structure_def
      save_enums_def make_code_def update_structure_def add_address_to_process_fields
      add_auto_comment_fields MakeHooks_fields blank_db_def BADADDR_def)

text \<open>
  C8, amended. Repeating a registration \<open>N \<ge> 1\<close> times leaves the pending containers, and
  so the calls of the next \<open>save()\<close>, as one registration does; this holds for each of the
  fourteen intake entry points. For the entry points that register an address with an
  annotation, the address is in the pending address set, the address pass exports it exactly
  once, and over the whole \<open>save()\<close> the number of \<open>accept_ea\<close> calls for it is one plus
  the number of pending structures that have no valid index and whose owning function is
  that address.
\<close>

theorem intake_dedup:
  assumes "0 < N"
  shows
    "(\<forall>g \<in> {rename ea new_name type old_name, change_comment ea, undefine ea,
             delete_function ea, make_code ea, make_data ea, add_function ea,
             update_structure struct_id,
             update_structure_member db' struct_id member_id member_offset,
             delete_structure_member struct_id member_id member_offset,
             update_enum enum_id, (\<lambda>h. fst (change_operand_type db' ea h)),
             add_segment start_ea end_ea, change_type_information ea}.
        pending ((g ^^ N) h) = pending (g h)
        \<and> snd (save db ((g ^^ N) h)) = snd (save db (g h)))
     \<and> (\<forall>f \<in> {rename ea new_name type old_name, undefine ea, delete_function ea,
               make_code ea, make_data ea, add_function ea, change_type_information ea}.
          addresses_to_process ((f ^^ N) h) = insert ea (addresses_to_process h)
          \<and> filter (\<lambda>e. e = accept_ea ea)
               (map accept_ea
                  (sorted_list_of_set (addresses_to_process (fst (save db ((f ^^ N) h))))))
             = [accept_ea ea]
          \<and> length (filter (\<lambda>e. e = accept_ea ea) (snd (save db ((f ^^ N) h))))
             = 1 + card {struct_id \<in> structures_to_process h.
                           get_struc_idx db struct_id = BADADDR
                           \<and> get_func_by_frame db struct_id = ea \<and> ea \<noteq> BADADDR})"
proof (intro conjI ballI)
  fix g
  assume "g \<in> {rename ea new_name type old_name, change_comment ea, undefine ea,
             delete_function ea, make_code ea, make_data ea, add_function ea,
             update_structure struct_id,
             update_structure_member db' struct_id member_id member_offset,
             delete_structure_member struct_id member_id member_offset,
             update_enum enum_id, (\<lambda>h. fst (change_operand_type db' ea h)),
             add_segment start_ea end_ea, change_type_information ea}"
  then have "pending (g (g h)) = pending (g h)" for h
    by (auto simp: intake_idem)
  then show p: "pending ((g ^^ N) h) = pending (g h)"
    using assms by (rule funpow_pending)
  show "snd (save db ((g ^^ N) h)) = snd (save db (g h))"
    by (rule save_events_pending [OF p])
next
  fix f
  assume f: "f \<in> {rename ea new_name type old_name, undefine ea, delete_function ea,
               make_code ea, make_data ea, add_function ea, change_type_information ea}"
  then have 1: "addresses_to_process (f h) = insert ea (addresses_to_process h)"
      and 2: "structures_to_process (f h) = structures_to_process h" for h
    by (auto simp: rename_def undefine_def delete_function_def make_code_def make_data_def
        add_function_def change_type_information_def add_address_to_process_fields)
  from 1 assms show a: "addresses_to_process ((f ^^ N) h) = insert ea (addresses_to_process h)"
    by (rule funpow_addresses)
  then have "ea \<in> addresses_to_process (fst (save db ((f ^^ N) h)))"
    by (simp add: save_fields)
  then show "filter (\<lambda>e. e = accept_ea ea)
               (map accept_ea
                  (sorted_list_of_set (addresses_to_process (fst (save db ((f ^^ N) h))))))
             = [accept_ea ea]"
    by (simp only: address_pass_once if_True)
  have "structures_to_process ((f ^^ N) h) = structures_to_process h"
    by (induction N) (simp_all add: 2)
  with a show "length (filter (\<lambda>e. e = accept_ea ea) (snd (save db ((f ^^ N) h))))
             = 1 + card {struct_id \<in> structures_to_process h.
                           get_struc_idx db struct_id = BADADDR
                           \<and> get_func_by_frame db struct_id = ea \<and> ea \<noteq> BADADDR}"
    by (simp add: count_accept_ea)
qed

theorem intake_dedup_witness:
  "(0 :: nat) < 3
   \<and> pending ((make_code (0x40 :: 64 ea_t) ^^ 3) (MakeHooks []))
      = pending (make_code 0x40 (MakeHooks []))
   \<and> addresses_to_process ((make_code (0x40 :: 64 ea_t) ^^ 3) (MakeHooks [])) = {0x40}
   \<and> length (filter (\<lambda>e. e = accept_ea 0x40)
        (snd (save blank_db ((make_code 0x40 ^^ 3) (MakeHooks []))))) = 1"
  using intake_dedup [of 3 "0x40" "[]" "[]" "[]" 0 blank_db 0 0 0 0 0 "MakeHooks []" blank_db]
  by (simp add: numeral_3_eq_3 save_events save_structures_def save_enums_def make_code_def
      add_address_to_process_fields MakeHooks_fields pending_def add_address_to_process_def
      add_auto_comment_def MakeHooks_def)

subsection \<open>Last write wins\<close>

lemma delete_struct_member_in_save:
  assumes "delete_struct_member func_ea struct_id off \<in> set (snd (save db h))"
  shows "\<exists>member_id. structmember_to_process h struct_id = Some (member_id, off)"
proof -
  have "delete_struct_member func_ea struct_id off \<notin> set (save_structure db x)" for x
    by (auto dest: save_structure_events)
  with assms obtain x info where x: "structmember_to_process h x = Some info"
    and "delete_struct_member func_ea struct_id off \<in> set (save_structmember db x info)"
    by (auto simp: save_events save_structures_def save_enums_def save_enum_def Let_def
        split: option.splits if_splits)
  then have "x = struct_id" "off = snd info"
    by (auto dest: save_structmember_events)
  with x show ?thesis by (cases info) simp
qed

text \<open>What the member loop does for one entry, in terms of the answers of the database.\<close>

lemma save_member_resolved:
  "save_member db func_ea ida_struct struct_id member_offset
   = (case get_member db ida_struct member_offset of
        None \<Rightarrow> [delete_struct_member func_ea struct_id member_offset]
      | Some ida_member \<Rightarrow>
          if member_t_id ida_member = - 1
             \<or> 0 < member_offset
               \<and> map_option member_t_id (get_member db ida_struct (member_offset - 1))
                 = Some (member_t_id ida_member)
          then [delete_struct_member func_ea struct_id member_offset]
          else [accept_struct_member func_ea (member_t_id ida_member)])"
  by (cases "get_member db ida_struct member_offset";
      cases "get_member db ida_struct (member_offset - 1)";
      simp add: save_member_def)

lemma save_structmember_resolved:
  "save_structmember db struct_id (member_id, member_offset)
         = (let ida_struct = get_struc db struct_id;
                deleted = (ida_struct = None \<or> get_struc_idx db struct_id = BADADDR);
                func_ea = (if deleted then get_func_by_frame db struct_id else BADADDR)
            in (if deleted \<and> func_ea \<noteq> BADADDR then [accept_function func_ea] else [])
               @ (case (if deleted \<and> func_ea = BADADDR then None
                        else get_member db ida_struct member_offset) of
                    None \<Rightarrow> [delete_struct_member func_ea struct_id member_offset]
                  | Some ida_member \<Rightarrow>
                      if member_t_id ida_member = - 1
                         \<or> 0 < member_offset
                           \<and> map_option member_t_id
                                (get_member db ida_struct (member_offset - 1))
                             = Some (member_t_id ida_member)
                      then [delete_struct_member func_ea struct_id member_offset]
                      else [accept_struct_member func_ea (member_t_id ida_member)]))"
proof -
  define ida_struct where "ida_struct = get_struc db struct_id"
  define deleted
    where "deleted \<longleftrightarrow> ida_struct = None \<or> get_struc_idx db struct_id = BADADDR"
  show ?thesis
    unfolding save_structmember_def save_member_resolved Let_def snd_conv
    unfolding ida_struct_def [symmetric]
    unfolding deleted_def [symmetric]
    by (cases deleted; cases "get_func_by_frame db struct_id = BADADDR") simp_all
qed

text \<open>
  C9. When two member edits (\<open>update_structure_member\<close> or \<open>delete_structure_member\<close>,
  in any combination) are registered for the same structure, the member map holds the pair of
  the second edit; the pending containers, and so the calls of \<open>save()\<close>, are those of the
  second edit alone, whatever the first was and whatever was pending before. \<open>save()\<close>
  resolves the structure at the second offset: the calls it makes for the entry are
  \<^item> \<open>accept_function\<close> of the owning function first, when the structure is gone and is
    a frame;
  \<^item> then \<open>delete_struct_member\<close> at the second offset when the structure is gone and is
    no frame, when the database has no member at that offset or one with identifier
    \<open>-1\<close>, or when the offset is positive and the member one byte below has the same
    identifier; and \<open>accept_struct_member\<close> of the member found at the second offset
    otherwise.
  Every \<open>delete_struct_member\<close> that \<open>save()\<close> emits for the structure carries that
  offset.
\<close>

theorem member_last_write_wins:
  "\<forall>f \<in> {update_structure_member db1 struct_id member_id1 offset1,
           delete_structure_member struct_id member_id1 offset1}.
   \<forall>g \<in> {update_structure_member db2 struct_id member_id2 offset2,
           delete_structure_member struct_id member_id2 offset2}.
     structmember_to_process (g (f h)) struct_id = Some (member_id2, offset2)
     \<and> pending (g (f h)) = pending (g h)
     \<and> snd (save db (g (f h))) = snd (save db (g h))
     \<and> (\<exists>pre post. snd (save db (g (f h)))
            = pre @ save_structmember db struct_id (member_id2, offset2) @ post)
     \<and> (\<forall>func_ea off. delete_struct_member func_ea struct_id off \<in> set (snd (save db (g (f h))))
            \<longrightarrow> off = offset2)
     \<and> save_structmember db struct_id (member_id2, offset2)
         = (let ida_struct = get_struc db struct_id;
                deleted = (ida_struct = None \<or> get_struc_idx db struct_id = BADADDR);
                func_ea = (if deleted then get_func_by_frame db struct_id else BADADDR)
            in (if deleted \<and> func_ea \<noteq> BADADDR then [accept_function func_ea] else [])
               @ (case (if deleted \<and> func_ea = BADADDR then None
                        else get_member db ida_struct offset2) of
                    None \<Rightarrow> [delete_struct_member func_ea struct_id offset2]
                  | Some ida_member \<Rightarrow>
                      if member_t_id ida_member = - 1
                         \<or> 0 < offset2
                           \<and> map_option member_t_id (get_member db ida_struct (offset2 - 1))
                             = Some (member_t_id ida_member)
                      then [delete_struct_member func_ea struct_id offset2]
                      else [accept_struct_member func_ea (member_t_id ida_member)]))"
proof (intro ballI)
  fix f g
  assume "f \<in> {update_structure_member db1 struct_id member_id1 offset1,
           delete_structure_member struct_id member_id1 offset1}"
    and "g \<in> {update_structure_member db2 struct_id member_id2 offset2,
           delete_structure_member struct_id member_id2 offset2}"
  then obtain m m' where f: "\<And>h. f h = add_strucmember_to_process struct_id member_id1 offset1 m h"
    and g: "\<And>h. g h = add_strucmember_to_process struct_id member_id2 offset2 m' h"
    by (auto simp: update_structure_member_def delete_structure_member_def Let_def)
  have 1: "structmember_to_process (g (f h)) struct_id = Some (member_id2, offset2)"
    by (simp add: f g add_strucmember_to_process_fields)
  have 2: "pending (g (f h)) = pending (g h)"
    by (simp add: f g add_strucmember_to_process_overwrite)
  have 3: "snd (save db (g (f h))) = snd (save db (g h))"
    by (rule save_events_pending [OF 2])
  have 4: "\<exists>pre post. snd (save db (g (f h)))
            = pre @ save_structmember db struct_id (member_id2, offset2) @ post"
    by (rule save_structmember_in_trace [OF 1])
  have 5: "\<forall>func_ea off. delete_struct_member func_ea struct_id off \<in> set (snd (save db (g (f h))))
            \<longrightarrow> off = offset2"
    using 1 by (auto dest!: delete_struct_member_in_save)
  have 6: "save_structmember db struct_id (member_id2, offset2)
         = (let ida_struct = get_struc db struct_id;
                deleted = (ida_struct = None \<or> get_struc_idx db struct_id = BADADDR);
                func_ea = (if deleted then get_func_by_frame db struct_id else BADADDR)
            in (if deleted \<and> func_ea \<noteq> BADADDR then [accept_function func_ea] else [])
               @ (case (if deleted \<and> func_ea = BADADDR then None
                        else get_member db ida_struct offset2) of
                    None \<Rightarrow> [delete_struct_member func_ea struct_id offset2]
                  | Some ida_member \<Rightarrow>
                      if member_t_id ida_member = - 1
                         \<or> 0 < offset2
                           \<and> map_option member_t_id (get_member db ida_struct (offset2 - 1))
                             = Some (member_t_id ida_member)
                      then [delete_struct_member func_ea struct_id offset2]
                      else [accept_struct_member func_ea (member_t_id ida_member)]))"
    by (rule save_structmember_resolved)
  from 1 2 3 4 5 6 show "structmember_to_process (g (f h)) struct_id = Some (member_id2, offset2)
     \<and> pending (g (f h)) = pending (g h)
     \<and> snd (save db (g (f h))) = snd (save db (g h))
     \<and> (\<exists>pre post. snd (save db (g (f h)))
            = pre @ save_structmember db struct_id (member_id2, offset2) @ post)
     \<and> (\<forall>func_ea off. delete_struct_member func_ea struct_id off \<in> set (snd (save db (g (f h))))
            \<longrightarrow> off = offset2)
     \<and> save_structmember db struct_id (member_id2, offset2)
         = (let ida_struct = get_struc db struct_id;
                deleted = (ida_struct = None \<or> get_struc_idx db struct_id = BADADDR);
                func_ea = (if deleted then get_func_by_frame db struct_id else BADADDR)
            in (if deleted \<and> func_ea \<noteq> BADADDR then [accept_function func_ea] else [])
               @ (case (if deleted \<and> func_ea = BADADDR then None
                        else get_member db ida_struct offset2) of
                    None \<Rightarrow> [delete_struct_member func_ea struct_id offset2]
                  | Some ida_member \<Rightarrow>
                      if member_t_id ida_member = - 1
                         \<or> 0 < offset2
                           \<and> map_option member_t_id (get_member db ida_struct (offset2 - 1))
                             = Some (member_t_id ida_member)
                      then [delete_struct_member func_ea struct_id offset2]
                      else [accept_struct_member func_ea (member_t_id ida_member)]))"
    by blast
qed

theorem member_last_write_wins_witness:
  "structmember_to_process
     (update_structure_member two_member_db 0x20 0x99 8
        (update_structure_member two_member_db 0x20 0x44 4 (MakeHooks []))) (0x20 :: 64 tid_t)
   = Some (0x99, 8)
   \<and> save_structmember two_member_db 0x20 (0x99, 8) = [accept_struct_member BADADDR 0x99]
   \<and> snd (save two_member_db
            (update_structure_member two_member_db 0x20 0x99 8
               (update_structure_member two_member_db 0x20 0x44 4 (MakeHooks []))))
      = [visit_start, accept_struct_member BADADDR 0x99, visit_end]
   \<and> snd (save two_member_db
            (delete_structure_member 0x20 0x77 6
               (update_structure_member two_member_db 0x20 0x44 4 (MakeHooks []))))
      = [visit_start, delete_struct_member BADADDR 0x20 6, visit_end]"
  using member_last_write_wins [of two_member_db "0x20" "0x44" 4 two_member_db "0x99" 8
      "MakeHooks []" two_member_db]
    member_last_write_wins [of two_member_db "0x20" "0x44" 4 two_member_db "0x77" 6
      "MakeHooks []" two_member_db]
  by (simp add: save_events save_structures_def save_structmember_def save_member_def
      save_enums_def update_structure_member_def delete_structure_member_def
      add_strucmember_to_process_fields MakeHooks_fields two_member_db_def blank_db_def
      BADADDR_def)

end
